theory Spec2Isabelle
  imports Main "HOL-Library.AList"
begin

section \<open>Values, exceptions and log events\<close>

text \<open>
  Python values as far as the pipeline stores and forwards them. \<open>PFloat m e\<close> is the
  decimal literal \<open>m * 10^e\<close> (the source only stores such literals), \<open>PObj\<close> is an
  opaque handle to an external object (a network client, a loaded model).
  A dictionary is an association list in insertion order with distinct keys.
\<close>

datatype pyval =
    PNone
  | PBool bool
  | PInt int
  | PStr string
  | PFloat int int
  | PObj nat
  | PList "pyval list"
  | PDict "(string \<times> pyval) list"

type_synonym pydict = "(string \<times> pyval) list"

text \<open>
  A raised exception: its class as far as the \<open>except\<close> clauses of the source tell
  classes apart (every value is an instance of \<open>Exception\<close>; \<open>ImportError\<close> stands
  for that class and its subclasses), the text \<open>str(e)\<close>, and the \<open>__cause__\<close> set by
  \<open>raise ... from e\<close>.
\<close>

datatype exn_class = RuntimeError | ValueError | ImportError | LookupError | OtherError string

datatype exn = Exn exn_class string "exn option"


fun exn_str :: "exn \<Rightarrow> string" where
  "exn_str (Exn c s k) = s"

fun exn_cause :: "exn \<Rightarrow> exn option" where
  "exn_cause (Exn c s k) = k"

datatype level = DEBUG | INFO | WARNING | ERROR

datatype log_event = Log level string

text \<open>The apostrophe-quoted interpolation \<open>'{x}'\<close> of the source's f-strings.\<close>

definition quoted :: "string \<Rightarrow> string" where
  "quoted s = [CHR 0x27] @ s @ [CHR 0x27]"

section \<open>The module contract (class ProcessorModule)\<close>

text \<open>
  Keyword options of a request. The contract types \<open>language\<close> as \<open>str\<close>; every
  other option is opaque to the pipeline and forwarded as it is.
\<close>

record kwargs =
  language :: "string option"
  options :: pydict

text \<open>
  A module object: its class (name, supported languages, the two abstract methods) and
  its instance attributes. A method gets the attributes and returns its outcome, the
  attributes as it leaves them (also when it raises) and the events it logs.
\<close>

record module =
  name :: string
  supported_languages :: "string list"
  initialize :: "pydict option \<Rightarrow> pydict \<Rightarrow> exn option \<times> pydict \<times> log_event list"
  process :: "string \<Rightarrow> kwargs \<Rightarrow> pydict \<Rightarrow> (exn + pyval) \<times> pydict \<times> log_event list"
  attrs :: pydict

definition can_process :: "module \<Rightarrow> string \<Rightarrow> bool" where
  "can_process m lang = (lang \<in> set (supported_languages m))"

section \<open>The pipeline (class Pipeline)\<close>

type_synonym ref = nat

record pipeline =
  modules :: "(string \<times> ref) list"
  config :: "(string \<times> pydict) list"
  initialized :: bool

text \<open>
  The pipeline holds references to module objects; the objects live in the store
  \<open>heap\<close>. \<open>log\<close> is the sequence of events handed to the logging system.
\<close>

record world =
  heap :: "ref \<Rightarrow> module"
  pipe :: pipeline
  log :: "log_event list"

definition emit :: "level \<Rightarrow> string \<Rightarrow> world \<Rightarrow> world" where
  "emit lv s w = w\<lparr>log := log w @ [Log lv s]\<rparr>"

definition set_attrs :: "ref \<Rightarrow> pydict \<Rightarrow> log_event list \<Rightarrow> world \<Rightarrow> world" where
  "set_attrs r a evs w = w\<lparr>heap := (heap w)(r := (heap w r)\<lparr>attrs := a\<rparr>), log := log w @ evs\<rparr>"

definition has_key :: "'k \<Rightarrow> ('k \<times> 'v) list \<Rightarrow> bool" where
  "has_key k d = (k \<in> set (map fst d))"

definition Pipeline_init :: "(ref \<Rightarrow> module) \<Rightarrow> world" where
  "Pipeline_init h =
     \<lparr>heap = h,
      pipe = \<lparr>modules = [], config = [], initialized = False\<rparr>,
      log = [Log INFO ''NLP Pipeline created'']\<rparr>"

definition register :: "world \<Rightarrow> ref \<Rightarrow> world" where
  "register w r =
     (let m = heap w r;
          w1 = (if has_key (name m) (modules (pipe w))
                then emit WARNING (''Module '' @ quoted (name m) @ '' is already registered. Overwriting.'') w
                else w);
          w2 = w1\<lparr>pipe := (pipe w1)\<lparr>modules := AList.update (name m) r (modules (pipe w1))\<rparr>\<rparr>
      in emit INFO (''Registered module: '' @ name m) w2)"

definition unregister :: "world \<Rightarrow> string \<Rightarrow> bool \<times> world" where
  "unregister w module_name =
     (if has_key module_name (modules (pipe w)) then
        (True,
         emit INFO (''Unregistered module: '' @ module_name)
           (w\<lparr>pipe := (pipe w)\<lparr>modules := AList.delete module_name (modules (pipe w))\<rparr>\<rparr>))
      else
        (False,
         emit WARNING (''Cannot unregister '' @ quoted module_name @ '': module not found'') w))"

text \<open>The exceptions the pipeline raises itself, under the names the specification uses.\<close>

definition NotInitializedError :: exn where
  "NotInitializedError = Exn RuntimeError ''Pipeline not initialized. Call initialize_all() first.'' None"

definition ModuleNotFoundError :: "string \<Rightarrow> exn" where
  "ModuleNotFoundError module_name =
     Exn ValueError (''Module '' @ quoted module_name @ '' not found in pipeline'') None"

definition PipelineInitializationError :: "string \<Rightarrow> exn \<Rightarrow> exn" where
  "PipelineInitializationError n e =
     Exn RuntimeError (''Module initialization failed: '' @ n) (Some e)"

text \<open>\<open>self.config.get(name, {})\<close>\<close>

definition config_for :: "(string \<times> pydict) list \<Rightarrow> string \<Rightarrow> pydict" where
  "config_for c n = (case map_of c n of None \<Rightarrow> [] | Some d \<Rightarrow> d)"

text \<open>The loop of \<open>initialize_all\<close> over \<open>self.modules.items()\<close>.\<close>

fun initialize_loop :: "(string \<times> ref) list \<Rightarrow> world \<Rightarrow> exn option \<times> world" where
  "initialize_loop [] w = (None, w)"
| "initialize_loop ((n, r) # rest) w =
     (let m = heap w r;
          module_config = config_for (config (pipe w)) n
      in case initialize m (Some module_config) (attrs m) of
           (None, a, evs) \<Rightarrow>
             initialize_loop rest
               (emit INFO (''Initialized module: '' @ n) (set_attrs r a evs w))
         | (Some e, a, evs) \<Rightarrow>
             (Some (PipelineInitializationError n e),
              emit ERROR (''Failed to initialize module '' @ quoted n @ '': '' @ exn_str e)
                (set_attrs r a evs w)))"

definition initialize_all :: "world \<Rightarrow> (string \<times> pydict) list option \<Rightarrow> exn option \<times> world" where
  "initialize_all w cfg =
     (let c = (case cfg of None \<Rightarrow> [] | Some d \<Rightarrow> if d = [] then [] else d);
          w0 = w\<lparr>pipe := (pipe w)\<lparr>config := c\<rparr>\<rparr>
      in case initialize_loop (modules (pipe w0)) w0 of
           (Some e, w1) \<Rightarrow> (Some e, w1)
         | (None, w1) \<Rightarrow>
             (None,
              emit INFO ''Pipeline initialization complete''
                (w1\<lparr>pipe := (pipe w1)\<lparr>initialized := True\<rparr>\<rparr>)))"

text \<open>\<open>kwargs.get('language', 'en-US')\<close>\<close>

definition get_language :: "kwargs \<Rightarrow> string" where
  "get_language kw = (case language kw of None \<Rightarrow> ''en-US'' | Some l \<Rightarrow> l)"

definition run_module :: "world \<Rightarrow> string \<Rightarrow> string \<Rightarrow> kwargs \<Rightarrow> (exn + pyval) \<times> world" where
  "run_module w module_name text kw =
     (if \<not> initialized (pipe w) then (Inl NotInitializedError, w)
      else case map_of (modules (pipe w)) module_name of
          None \<Rightarrow> (Inl (ModuleNotFoundError module_name), w)
        | Some r \<Rightarrow>
            (let m = heap w r; lang = get_language kw
             in if \<not> can_process m lang then
                  (Inr PNone,
                   emit WARNING (''Module '' @ module_name @ '' doesn't support language ''
                                   @ quoted lang @ ''. Skipping.'') w)
                else
                  (case process m text kw (attrs m) of
                     (Inr v, a, evs) \<Rightarrow> (Inr v, set_attrs r a evs w)
                   | (Inl e, a, evs) \<Rightarrow>
                       (Inl e,
                        emit ERROR (''Error in module '' @ quoted module_name @ '': '' @ exn_str e)
                          (set_attrs r a evs w)))))"

definition error_marker :: "exn \<Rightarrow> pyval" where
  "error_marker e = PDict [(''error'', PStr (exn_str e))]"

text \<open>The loop of \<open>run_all\<close> over \<open>self.modules.items()\<close>, filling \<open>results\<close>.\<close>

fun run_loop :: "(string \<times> ref) list \<Rightarrow> string \<Rightarrow> kwargs \<Rightarrow> string \<Rightarrow> pydict \<Rightarrow> world \<Rightarrow> pydict \<times> world" where
  "run_loop [] text kw lang results w = (results, w)"
| "run_loop ((n, r) # rest) text kw lang results w =
     (let m = heap w r
      in if \<not> can_process m lang then
           run_loop rest text kw lang results
             (emit INFO (''Skipping module '' @ quoted n @ '' that doesn't support language ''
                           @ quoted lang) w)
         else
           (case process m text kw (attrs m) of
              (Inr v, a, evs) \<Rightarrow>
                run_loop rest text kw lang (AList.update n v results)
                  (emit DEBUG (''Successfully ran module: '' @ n) (set_attrs r a evs w))
            | (Inl e, a, evs) \<Rightarrow>
                run_loop rest text kw lang (AList.update n (error_marker e) results)
                  (emit ERROR (''Error running module '' @ quoted n @ '': '' @ exn_str e)
                     (set_attrs r a evs w))))"

definition run_all :: "world \<Rightarrow> string \<Rightarrow> kwargs \<Rightarrow> (exn + pydict) \<times> world" where
  "run_all w text kw =
     (if \<not> initialized (pipe w) then (Inl NotInitializedError, w)
      else case run_loop (modules (pipe w)) text kw (get_language kw) [] w of
             (results, w1) \<Rightarrow> (Inr results, w1))"

section \<open>Registry invariant and observations\<close>

text \<open>
  The registry is a dictionary keyed by the name the module reported when it was
  registered: keys are distinct and every binding sits under its module's name.
\<close>

definition pipeline_inv :: "world \<Rightarrow> bool" where
  "pipeline_inv w =
     (distinct (map fst (modules (pipe w))) \<and>
      list_all (\<lambda>(k, r). name (heap w r) = k) (modules (pipe w)))"

text \<open>What a module's \<open>process\<close> does when called on its current attributes.\<close>

definition outcome :: "module \<Rightarrow> string \<Rightarrow> kwargs \<Rightarrow> exn + pyval" where
  "outcome m text kw = fst (process m text kw (attrs m))"

definition attrs_after :: "module \<Rightarrow> string \<Rightarrow> kwargs \<Rightarrow> pydict" where
  "attrs_after m text kw = fst (snd (process m text kw (attrs m)))"

text \<open>The entry \<open>run_all\<close> stores for an outcome: the result, or the error marker.\<close>

definition entry_of :: "exn + pyval \<Rightarrow> pyval" where
  "entry_of res = (case res of Inr v \<Rightarrow> v | Inl e \<Rightarrow> error_marker e)"

text \<open>The bindings \<open>run_all\<close> does not skip for the language.\<close>

definition capable :: "world \<Rightarrow> string \<Rightarrow> (string \<times> ref) list" where
  "capable w lang = filter (\<lambda>(k, r). can_process (heap w r) lang) (modules (pipe w))"

text \<open>What a module's \<open>initialize\<close> does when the pipeline calls it with a configuration.\<close>

definition init_outcome :: "module \<Rightarrow> pydict \<Rightarrow> exn option" where
  "init_outcome m c = fst (initialize m (Some c) (attrs m))"

definition init_attrs :: "module \<Rightarrow> pydict \<Rightarrow> pydict" where
  "init_attrs m c = fst (snd (initialize m (Some c) (attrs m)))"

text \<open>The configuration mapping \<open>initialize_all\<close> captures: \<open>config or {}\<close>.\<close>

definition captured_config :: "(string \<times> pydict) list option \<Rightarrow> (string \<times> pydict) list" where
  "captured_config cfg = (case cfg of None \<Rightarrow> [] | Some d \<Rightarrow> d)"

section \<open>Example modules and pipelines\<close>

text \<open>
  Test modules in the style of the specification's scenarios: \<open>a\<close> supports only
  \<open>en-US\<close>, \<open>b\<close> only \<open>fr-FR\<close>, \<open>x\<close> raises \<open>boom\<close> in \<open>process\<close>, \<open>y\<close> raises in
  \<open>initialize\<close>. Every method records its call in the attributes.
\<close>

definition ok_initialize :: "pydict option \<Rightarrow> pydict \<Rightarrow> exn option \<times> pydict \<times> log_event list" where
  "ok_initialize c a = (None, AList.update ''ready'' (PBool True) a, [])"

definition bad_initialize :: "pydict option \<Rightarrow> pydict \<Rightarrow> exn option \<times> pydict \<times> log_event list" where
  "bad_initialize c a =
     (Some (Exn ValueError ''missing credential'' None), AList.update ''ready'' (PBool False) a, [])"

definition echo_process :: "string \<Rightarrow> kwargs \<Rightarrow> pydict \<Rightarrow> (exn + pyval) \<times> pydict \<times> log_event list" where
  "echo_process text kw a = (Inr (PDict [(''echo'', PStr text)]), AList.update ''last'' (PStr text) a, [])"

definition boom_process :: "string \<Rightarrow> kwargs \<Rightarrow> pydict \<Rightarrow> (exn + pyval) \<times> pydict \<times> log_event list" where
  "boom_process text kw a =
     (Inl (Exn (OtherError ''ProcessingError'') ''boom'' None), AList.update ''last'' (PStr text) a, [])"

definition mk_module :: "string \<Rightarrow> string list
    \<Rightarrow> (pydict option \<Rightarrow> pydict \<Rightarrow> exn option \<times> pydict \<times> log_event list)
    \<Rightarrow> (string \<Rightarrow> kwargs \<Rightarrow> pydict \<Rightarrow> (exn + pyval) \<times> pydict \<times> log_event list) \<Rightarrow> module" where
  "mk_module n ls i p =
     \<lparr>name = n, supported_languages = ls, initialize = i, process = p, attrs = []\<rparr>"

definition ex_heap :: "ref \<Rightarrow> module" where
  "ex_heap r =
     (if r = 0 then mk_module ''a'' [''en-US''] ok_initialize echo_process
      else if r = 1 then mk_module ''b'' [''fr-FR''] ok_initialize echo_process
      else if r = 2 then mk_module ''x'' [''en-US''] ok_initialize boom_process
      else if r = 3 then mk_module ''a'' [''en-US'', ''en-GB''] ok_initialize echo_process
      else mk_module ''y'' [''en-US''] bad_initialize echo_process)"

text \<open>Modules \<open>a\<close>, \<open>b\<close>, \<open>x\<close> registered; then initialized with no configuration.\<close>

definition ex_registered :: world where
  "ex_registered = register (register (register (Pipeline_init ex_heap) 0) 1) 2"

definition ex_ready :: world where
  "ex_ready = snd (initialize_all ex_registered None)"

definition ex_kw :: kwargs where
  "ex_kw = \<lparr>language = None, options = []\<rparr>"

text \<open>The initialized example pipeline with module \<open>y\<close> registered afterwards.\<close>

definition ex_late :: world where
  "ex_late = register ex_ready 4"

text \<open>Modules \<open>a\<close>, \<open>y\<close>, \<open>b\<close> registered in a fresh pipeline, in this order.\<close>

definition ex_failing :: world where
  "ex_failing = register (register (register (Pipeline_init ex_heap) 0) 4) 1"

section \<open>The concrete modules' \<open>initialize\<close>\<close>

text \<open>
  What the modules reach outside the repository: the process environment
  (\<open>os.environ.get\<close>), import statements inside \<open>initialize\<close>, calls into third-party
  libraries (by qualified name, on argument values, returning a value or raising) and
  Python's \<open>str\<close> on values that are not strings. They are parameters of the model.
  \<open>lt_match\<close> is a match object of the grammar library, with the attributes the
  source reads.
\<close>

record lt_match =
  message :: string
  offset :: int
  errorLength :: int
  ruleId :: string
  replacements :: "string list"

record env =
  environ_get :: "string \<Rightarrow> pyval"
  import_module :: "string \<Rightarrow> exn option"
  call :: "string \<Rightarrow> pyval list \<Rightarrow> exn + pyval"
  check :: "pyval \<Rightarrow> string \<Rightarrow> exn + lt_match list"
  correct :: "string \<Rightarrow> lt_match list \<Rightarrow> exn + string"
  str_of :: "pyval \<Rightarrow> string"

text \<open>\<open>str(v)\<close> as an f-string interpolates it.\<close>

definition py_str :: "env \<Rightarrow> pyval \<Rightarrow> string" where
  "py_str env v = (case v of PStr s \<Rightarrow> s | _ \<Rightarrow> str_of env v)"

text \<open>Truth value of a Python value (\<open>not v\<close>); an opaque object counts as true.\<close>

fun truthy :: "pyval \<Rightarrow> bool" where
  "truthy PNone = False"
| "truthy (PBool b) = b"
| "truthy (PInt i) = (i \<noteq> 0)"
| "truthy (PStr s) = (s \<noteq> [])"
| "truthy (PFloat m e) = (m \<noteq> 0)"
| "truthy (PObj h) = True"
| "truthy (PList xs) = (xs \<noteq> [])"
| "truthy (PDict d) = (d \<noteq> [])"

text \<open>\<open>config or {}\<close>, \<open>d.get(k, default)\<close>, and a run of attribute assignments.\<close>

definition or_empty :: "pydict option \<Rightarrow> pydict" where
  "or_empty c = (case c of None \<Rightarrow> [] | Some d \<Rightarrow> d)"

definition dict_get :: "pydict \<Rightarrow> string \<Rightarrow> pyval \<Rightarrow> pyval" where
  "dict_get d k dflt = (case map_of d k of None \<Rightarrow> dflt | Some v \<Rightarrow> v)"

definition assign :: "(string \<times> pyval) list \<Rightarrow> pydict \<Rightarrow> pydict" where
  "assign kvs a = fold (\<lambda>(k, v). AList.update k v) kvs a"

subsection \<open>GrammarChecker\<close>

definition GrammarChecker_languages :: "string list" where
  "GrammarChecker_languages = [''en-US'', ''en-GB'', ''fr-FR'', ''de-DE'', ''es-ES'', ''pt-PT'']"

definition GrammarChecker_initialize ::
    "env \<Rightarrow> pydict option \<Rightarrow> pydict \<Rightarrow> exn option \<times> pydict \<times> log_event list" where
  "GrammarChecker_initialize env cfg a =
     (let c = or_empty cfg;
          requested = dict_get c ''language'' (PStr ''en-US'');
          supported = (requested \<in> set (map PStr GrammarChecker_languages));
          lang = (if supported then requested else PStr ''en-US'');
          evs = (if supported then []
                 else [Log WARNING (''Language '' @ quoted (py_str env requested)
                                      @ '' is not supported. Defaulting to 'en-US'.'')]);
          server_url = dict_get c ''server_url'' (PStr ''http://localhost:8081'');
          a1 = assign [(''language'', lang), (''tool'', PNone), (''server_url'', server_url)] a
      in case call env ''language_tool_python.LanguageTool'' [lang, server_url] of
           Inr tool \<Rightarrow>
             (None, assign [(''tool'', tool)] a1,
              evs @ [Log INFO (''GrammarChecker initialized with LanguageTool server at ''
                                 @ py_str env server_url @ '' for language '' @ py_str env lang)])
         | Inl e \<Rightarrow>
             (None, assign [(''tool'', PNone)] a1,
              evs @ [Log ERROR (''Failed to initialize LanguageTool server: '' @ exn_str e)]))"

text \<open>
  \<open>process\<close>. \<open>LanguageTool.check\<close> and \<open>language_tool_python.utils.correct\<close> are the
  library's; \<open>check\<close> returns match objects with the attributes read below.
\<close>

definition unchecked_result :: "string \<Rightarrow> pyval" where
  "unchecked_result text =
     PDict [(''issues_count'', PInt 0), (''issues'', PList []), (''corrected_text'', PStr text)]"

definition issue_of :: "lt_match \<Rightarrow> pyval" where
  "issue_of m =
     PDict [(''message'', PStr (message m)), (''offset'', PInt (offset m)),
            (''length'', PInt (errorLength m)), (''rule_id'', PStr (ruleId m)),
            (''replacements'', PList (map PStr (take 5 (replacements m))))]"

definition GrammarChecker_process ::
    "env \<Rightarrow> string \<Rightarrow> kwargs \<Rightarrow> pydict \<Rightarrow> (exn + pyval) \<times> pydict \<times> log_event list" where
  "GrammarChecker_process env text kw a =
     (case map_of a ''tool'' of
        None \<Rightarrow>
          (Inl (Exn (OtherError ''AttributeError'')
                  (quoted ''GrammarChecker'' @ '' object has no attribute '' @ quoted ''tool'')
                  None), a, [])
      | Some tool \<Rightarrow>
          if \<not> truthy tool then
            (Inr (unchecked_result text), a,
             [Log WARNING ''GrammarChecker is not initialized. Returning text without checks.''])
          else
            (case check env tool text of
               Inl e \<Rightarrow>
                 (Inr (unchecked_result text), a,
                  [Log ERROR (''Error during grammar checking: '' @ exn_str e)])
             | Inr matches \<Rightarrow>
                 (let issues = map issue_of matches
                  in case correct env text matches of
                       Inl e \<Rightarrow>
                         (Inr (unchecked_result text), a,
                          [Log ERROR (''Error during grammar checking: '' @ exn_str e)])
                     | Inr corrected_text \<Rightarrow>
                         (Inr (PDict [(''issues_count'', PInt (int (length issues))),
                                      (''issues'', PList issues),
                                      (''corrected_text'', PStr corrected_text)]), a, []))))"

definition GrammarChecker :: "env \<Rightarrow> module" where
  "GrammarChecker env =
     \<lparr>name = ''grammar'', supported_languages = GrammarChecker_languages,
      initialize = GrammarChecker_initialize env, process = GrammarChecker_process env,
      attrs = []\<rparr>"


subsection \<open>TextCompletion\<close>



subsection \<open>VoiceToText\<close>



subsection \<open>Summarizer\<close>



subsection \<open>SentimentAnalyzer\<close>




subsection \<open>When a module's resources are established\<close>









subsection \<open>Example environments\<close>





section \<open>Basic facts about the operations\<close>

lemma emit_simps [simp]:
  "heap (emit lv s w) = heap w" "pipe (emit lv s w) = pipe w" "log (emit lv s w) = log w @ [Log lv s]"
  by (simp_all add: emit_def)

lemma set_attrs_simps [simp]:
  "pipe (set_attrs r a evs w) = pipe w"
  "log (set_attrs r a evs w) = log w @ evs"
  "heap (set_attrs r a evs w) r' = (if r' = r then (heap w r)\<lparr>attrs := a\<rparr> else heap w r')"
  by (simp_all add: set_attrs_def)

lemma update_fresh: "k \<notin> fst ` set d \<Longrightarrow> AList.update k v d = d @ [(k, v)]"
  by (induction d) auto

lemma inv_distinct_refs:
  assumes "pipeline_inv w"
  shows "distinct (map snd (modules (pipe w)))"
proof -
  let ?ms = "modules (pipe w)"
  from assms have "\<forall>p \<in> set ?ms. fst p = name (heap w (snd p))"
    by (auto simp: pipeline_inv_def list_all_iff)
  then have "map fst ?ms = map (\<lambda>p. name (heap w (snd p))) ?ms"
    by (simp only: map_eq_conv)
  also have "\<dots> = map (\<lambda>r. name (heap w r)) (map snd ?ms)" by simp
  finally have eq: "map fst ?ms = map (\<lambda>r. name (heap w r)) (map snd ?ms)" .
  from assms have "distinct (map fst ?ms)" by (simp add: pipeline_inv_def)
  then have "distinct (map (\<lambda>r. name (heap w r)) (map snd ?ms))"
    by (simp only: eq)
  then show ?thesis by (simp only: distinct_map)
qed

lemma run_loop_results:
  assumes "distinct (map fst ms)" "distinct (map snd ms)"
    and "fst ` set ms \<inter> fst ` set res = {}"
    and "\<forall>(k, r) \<in> set ms. heap w r = h r"
  shows "fst (run_loop ms text kw lang res w) =
           res @ map (\<lambda>(k, r). (k, entry_of (outcome (h r) text kw)))
                   (filter (\<lambda>(k, r). can_process (h r) lang) ms)"
  using assms
proof (induction ms arbitrary: res w)
  case Nil
  then show ?case by simp
next
  case (Cons p ms)
  obtain n r where p: "p = (n, r)" by (cases p)
  from Cons.prems p have hr: "heap w r = h r" by simp
  from Cons.prems p have fresh: "n \<notin> fst ` set res" by auto
  from Cons.prems p have dk: "distinct (map fst ms)" and dr: "distinct (map snd ms)"
    and nk: "n \<notin> fst ` set ms" and nr: "r \<notin> snd ` set ms" by auto
  show ?case
  proof (cases "can_process (h r) lang")
    case False
    have "fst (run_loop ms text kw lang res (emit INFO (''Skipping module '' @ quoted n @ '' that doesn't support language '' @ quoted lang) w))
          = res @ map (\<lambda>(k, r). (k, entry_of (outcome (h r) text kw))) (filter (\<lambda>(k, r). can_process (h r) lang) ms)"
      using Cons.prems p dk dr by (intro Cons.IH) auto
    with False hr p show ?thesis by simp
  next
    case True
    obtain res0 a evs where pr: "process (h r) text kw (attrs (h r)) = (res0, a, evs)"
      by (cases "process (h r) text kw (attrs (h r))")
    have step: "fst (run_loop ms text kw lang (res @ [(n, v)]) (emit lv s (set_attrs r a evs w)))
          = (res @ [(n, v)]) @ map (\<lambda>(k, r). (k, entry_of (outcome (h r) text kw))) (filter (\<lambda>(k, r). can_process (h r) lang) ms)"
      for v lv s
    proof (intro Cons.IH dk dr)
      show "fst ` set ms \<inter> fst ` set (res @ [(n, v)]) = {}"
        using Cons.prems(3) nk by auto
      show "\<forall>(k, r') \<in> set ms. heap (emit lv s (set_attrs r a evs w)) r' = h r'"
        using Cons.prems(4) nr by (auto simp: rev_image_eqI)
    qed
    show ?thesis
      using True hr p pr step fresh
      by (cases res0) (simp_all add: update_fresh outcome_def entry_of_def)
  qed
qed

lemma run_loop_heap:
  assumes "distinct (map snd ms)"
    and "\<forall>(k, r) \<in> set ms. heap w r = h r"
  shows "heap (snd (run_loop ms text kw lang res w)) r' =
           (if r' \<in> snd ` set (filter (\<lambda>(k, r). can_process (h r) lang) ms)
            then (h r')\<lparr>attrs := attrs_after (h r') text kw\<rparr> else heap w r')"
  using assms
proof (induction ms arbitrary: res w)
  case Nil
  then show ?case by simp
next
  case (Cons p ms)
  obtain n r where p: "p = (n, r)" by (cases p)
  from Cons.prems p have hr: "heap w r = h r" by simp
  from Cons.prems p have dr: "distinct (map snd ms)" and nr: "r \<notin> snd ` set ms" by auto
  let ?cap = "filter (\<lambda>(k, r). can_process (h r) lang) ms"
  have nrc: "r \<notin> snd ` set ?cap" using nr by auto
  show ?case
  proof (cases "can_process (h r) lang")
    case False
    have "heap (snd (run_loop ms text kw lang res (emit lv s w))) r' =
           (if r' \<in> snd ` set ?cap then (h r')\<lparr>attrs := attrs_after (h r') text kw\<rparr> else heap (emit lv s w) r')"
      for lv s
      using Cons.prems p dr by (intro Cons.IH) auto
    with False hr p show ?thesis by simp
  next
    case True
    obtain res0 a evs where pr: "process (h r) text kw (attrs (h r)) = (res0, a, evs)"
      by (cases "process (h r) text kw (attrs (h r))")
    have step: "heap (snd (run_loop ms text kw lang res1 (emit lv s (set_attrs r a evs w)))) r' =
           (if r' \<in> snd ` set ?cap then (h r')\<lparr>attrs := attrs_after (h r') text kw\<rparr>
            else heap (emit lv s (set_attrs r a evs w)) r')"
      for res1 lv s
    proof (intro Cons.IH dr)
      show "\<forall>(k, r') \<in> set ms. heap (emit lv s (set_attrs r a evs w)) r' = h r'"
        using Cons.prems(2) nr by (auto simp: rev_image_eqI)
    qed
    show ?thesis
      using True hr p pr step nrc
      by (cases res0) (auto simp: attrs_after_def)
  qed
qed

lemma run_loop_pipe: "pipe (snd (run_loop ms text kw lang res w)) = pipe w"
  by (induction ms arbitrary: res w) (auto simp: Let_def split: prod.splits sum.splits)

lemma initialize_loop_pipe: "pipe (snd (initialize_loop ms w)) = pipe w"
  by (induction ms arbitrary: w) (auto simp: Let_def split: prod.splits option.splits)

lemmas ex_defs = ex_registered_def ex_ready_def ex_kw_def ex_heap_def mk_module_def
  ok_initialize_def bad_initialize_def echo_process_def boom_process_def
  Pipeline_init_def register_def has_key_def initialize_all_def config_for_def Let_def

lemma ex_registered_modules: "modules (pipe ex_registered) = [(''a'', 0), (''b'', 1), (''x'', 2)]"
  by (simp add: ex_defs)

lemma ex_ready_modules: "modules (pipe ex_ready) = [(''a'', 0), (''b'', 1), (''x'', 2)]"
  by (simp add: ex_defs)

lemma ex_ready_initialized: "initialized (pipe ex_ready)"
  by (simp add: ex_defs)

lemma ex_ready_inv: "pipeline_inv ex_ready"
  by (simp add: ex_defs pipeline_inv_def)

section \<open>Execution before initialization\<close>

text \<open>
  Claim C4. While the \<open>initialized\<close> flag is false, \<open>run_all\<close> and \<open>run_module\<close> both
  raise the not-initialized error and leave the whole world as it was: no module
  object is touched (so no \<open>process\<close> ran), nothing is logged, and there is no partial
  result.
\<close>

theorem not_initialized_guard:
  "\<not> initialized (pipe w) \<Longrightarrow>
     run_all w text kw = (Inl NotInitializedError, w) \<and>
     run_module w module_name text kw = (Inl NotInitializedError, w)"
  by (simp add: run_all_def run_module_def)

theorem not_initialized_guard_witness:
  "\<not> initialized (pipe ex_registered) \<and>
   run_all ex_registered ''hello'' ex_kw = (Inl NotInitializedError, ex_registered) \<and>
   run_module ex_registered ''a'' ''hello'' ex_kw = (Inl NotInitializedError, ex_registered)"
proof -
  have h: "\<not> initialized (pipe ex_registered)" by (simp add: ex_defs)
  from not_initialized_guard [OF h] h show ?thesis by simp
qed

section \<open>Execution leaves the pipeline's own state alone\<close>

text \<open>
  Claim C10. \<open>run_module\<close> and \<open>run_all\<close> never change the pipeline object: the
  registry, the captured configuration and the \<open>initialized\<close> flag are the same after
  the call as before, whatever the call returns or raises.
\<close>

theorem run_frame:
  "pipe (snd (run_module w module_name text kw)) = pipe w \<and>
   pipe (snd (run_all w text kw)) = pipe w"
proof
  show "pipe (snd (run_module w module_name text kw)) = pipe w"
    by (auto simp: run_module_def Let_def split: option.splits prod.splits sum.splits)
  show "pipe (snd (run_all w text kw)) = pipe w"
    using run_loop_pipe [of "modules (pipe w)" "text" kw "get_language kw" "[]" w]
    by (auto simp: run_all_def split: prod.splits)
qed

section \<open>The fan-out of \<open>run_all\<close>\<close>

lemma run_all_unfold:
  "initialized (pipe w) \<Longrightarrow>
     run_all w text kw =
       (Inr (fst (run_loop (modules (pipe w)) text kw (get_language kw) [] w)),
        snd (run_loop (modules (pipe w)) text kw (get_language kw) [] w))"
  by (simp add: run_all_def split: prod.splits)

lemma run_all_results:
  assumes "pipeline_inv w" "initialized (pipe w)"
  shows "fst (run_all w text kw) =
           Inr (map (\<lambda>(k, r). (k, entry_of (outcome (heap w r) text kw))) (capable w (get_language kw)))"
proof -
  have d: "distinct (map fst (modules (pipe w)))" using assms(1) by (simp add: pipeline_inv_def)
  have "fst (run_loop (modules (pipe w)) text kw (get_language kw) [] w) =
          [] @ map (\<lambda>(k, r). (k, entry_of (outcome (heap w r) text kw)))
                 (filter (\<lambda>(k, r). can_process (heap w r) (get_language kw)) (modules (pipe w)))"
    by (rule run_loop_results [OF d inv_distinct_refs [OF assms(1)]]) auto
  then show ?thesis
    by (simp only: run_all_unfold [OF assms(2)] capable_def fst_conv snd_conv append_Nil)
qed

lemma run_all_heap:
  assumes "pipeline_inv w" "initialized (pipe w)"
  shows "heap (snd (run_all w text kw)) r =
           (if r \<in> snd ` set (capable w (get_language kw))
            then (heap w r)\<lparr>attrs := attrs_after (heap w r) text kw\<rparr> else heap w r)"
proof -
  have "heap (snd (run_loop (modules (pipe w)) text kw (get_language kw) [] w)) r =
          (if r \<in> snd ` set (filter (\<lambda>(k, r). can_process (heap w r) (get_language kw)) (modules (pipe w)))
           then (heap w r)\<lparr>attrs := attrs_after (heap w r) text kw\<rparr> else heap w r)"
    by (rule run_loop_heap [OF inv_distinct_refs [OF assms(1)]]) auto
  then show ?thesis
    by (simp only: run_all_unfold [OF assms(2)] capable_def fst_conv snd_conv append_Nil)
qed

lemma capable_keys_distinct:
  "pipeline_inv w \<Longrightarrow> distinct (map fst (capable w lang))"
  by (simp add: pipeline_inv_def capable_def distinct_map_filter)

lemma map_of_entries:
  assumes "distinct (map fst ms)" "(k, r) \<in> set ms"
  shows "map_of (map (\<lambda>(k, r). (k, f r)) ms) k = Some (f r)"
proof -
  have "map_of ms k = Some r" using assms by simp
  moreover have "map_of (map (\<lambda>(k, r). (k, f r)) ms) k = map_option f (map_of ms k)"
    by (induction ms) auto
  ultimately show ?thesis by simp
qed

text \<open>
  Claim C1. In an initialized pipeline, when the \<open>process\<close> of a registered module
  that supports the language raises \<open>e\<close>, \<open>run_all\<close> still returns a result mapping;
  it maps that module's name to \<open>{"error": str(e)}\<close>, and every registered module that
  supports the language was invoked (its attributes are the ones its \<open>process\<close> left)
  and has its own entry: its result, or its own error marker.
\<close>

theorem run_all_fault_isolation:
  assumes "pipeline_inv w" and "initialized (pipe w)"
    and "(k, r) \<in> set (modules (pipe w))"
    and "can_process (heap w r) (get_language kw)"
    and "outcome (heap w r) text kw = Inl e"
  shows "\<exists>results. fst (run_all w text kw) = Inr results \<and>
           map_of results k = Some (PDict [(''error'', PStr (exn_str e))]) \<and>
           (\<forall>(k', r') \<in> set (modules (pipe w)). can_process (heap w r') (get_language kw) \<longrightarrow>
              map_of results k' = Some (entry_of (outcome (heap w r') text kw)) \<and>
              attrs (heap (snd (run_all w text kw)) r') = attrs_after (heap w r') text kw)"
proof -
  let ?lang = "get_language kw"
  let ?results = "map (\<lambda>(k, r). (k, entry_of (outcome (heap w r) text kw))) (capable w ?lang)"
  have dc: "distinct (map fst (capable w ?lang))" by (rule capable_keys_distinct [OF assms(1)])
  have ent: "map_of ?results k' = Some (entry_of (outcome (heap w r') text kw))"
    if "(k', r') \<in> set (modules (pipe w))" "can_process (heap w r') ?lang" for k' r'
  proof -
    from that have "(k', r') \<in> set (capable w ?lang)" by (simp add: capable_def)
    from map_of_entries [OF dc this] show ?thesis .
  qed
  have att: "attrs (heap (snd (run_all w text kw)) r') = attrs_after (heap w r') text kw"
    if "(k', r') \<in> set (modules (pipe w))" "can_process (heap w r') ?lang" for k' r'
  proof -
    from that have "(k', r') \<in> set (capable w ?lang)" by (simp add: capable_def)
    then have "r' \<in> snd ` set (capable w ?lang)" by force
    then show ?thesis by (simp add: run_all_heap [OF assms(1,2)])
  qed
  have "map_of ?results k = Some (PDict [(''error'', PStr (exn_str e))])"
    using ent [OF assms(3,4)] assms(5) by (simp add: entry_of_def error_marker_def)
  moreover have "fst (run_all w text kw) = Inr ?results"
    by (rule run_all_results [OF assms(1,2)])
  ultimately show ?thesis using ent att by blast
qed

theorem run_all_fault_isolation_witness:
  "pipeline_inv ex_ready \<and> initialized (pipe ex_ready) \<and>
   (''x'', 2) \<in> set (modules (pipe ex_ready)) \<and>
   can_process (heap ex_ready 2) (get_language ex_kw) \<and>
   outcome (heap ex_ready 2) ''hello'' ex_kw = Inl (Exn (OtherError ''ProcessingError'') ''boom'' None) \<and>
   (\<exists>results. fst (run_all ex_ready ''hello'' ex_kw) = Inr results \<and>
      map_of results ''x'' = Some (PDict [(''error'', PStr ''boom'')]) \<and>
      map_of results ''a'' = Some (PDict [(''echo'', PStr ''hello'')]) \<and>
      attrs (heap (snd (run_all ex_ready ''hello'' ex_kw)) 0) = [(''ready'', PBool True), (''last'', PStr ''hello'')])"
proof -
  have h3: "(''x'', 2) \<in> set (modules (pipe ex_ready))" by (simp add: ex_ready_modules)
  have h4: "can_process (heap ex_ready 2) (get_language ex_kw)"
    by (simp add: ex_defs can_process_def get_language_def)
  have h5: "outcome (heap ex_ready 2) ''hello'' ex_kw = Inl (Exn (OtherError ''ProcessingError'') ''boom'' None)"
    by (simp add: ex_defs outcome_def)
  have a1: "(''a'', 0) \<in> set (modules (pipe ex_ready))" by (simp add: ex_ready_modules)
  have a2: "can_process (heap ex_ready 0) (get_language ex_kw)"
    by (simp add: ex_defs can_process_def get_language_def)
  have a3: "entry_of (outcome (heap ex_ready 0) ''hello'' ex_kw) = PDict [(''echo'', PStr ''hello'')]"
    by (simp add: ex_defs outcome_def entry_of_def)
  have a4: "attrs_after (heap ex_ready 0) ''hello'' ex_kw = [(''ready'', PBool True), (''last'', PStr ''hello'')]"
    by (simp add: ex_defs attrs_after_def)
  from run_all_fault_isolation [OF ex_ready_inv ex_ready_initialized h3 h4 h5]
  obtain results where r: "fst (run_all ex_ready ''hello'' ex_kw) = Inr results"
     "map_of results ''x'' = Some (PDict [(''error'', PStr ''boom'')])"
     "\<forall>(k', r') \<in> set (modules (pipe ex_ready)). can_process (heap ex_ready r') (get_language ex_kw) \<longrightarrow>
              map_of results k' = Some (entry_of (outcome (heap ex_ready r') ''hello'' ex_kw)) \<and>
              attrs (heap (snd (run_all ex_ready ''hello'' ex_kw)) r') = attrs_after (heap ex_ready r') ''hello'' ex_kw"
    by auto
  from r(3) a1 a2 have "map_of results ''a'' = Some (entry_of (outcome (heap ex_ready 0) ''hello'' ex_kw)) \<and>
              attrs (heap (snd (run_all ex_ready ''hello'' ex_kw)) 0) = attrs_after (heap ex_ready 0) ''hello'' ex_kw"
    by blast
  with a3 a4 r(1,2) ex_ready_inv ex_ready_initialized h3 h4 h5 show ?thesis by auto
qed

lemma map_of_capable_skipped:
  assumes "distinct (map fst ms)" "(k, r) \<in> set ms" "\<not> P r"
  shows "k \<notin> fst ` set (filter (\<lambda>(k, r). P r) ms)"
proof
  assume "k \<in> fst ` set (filter (\<lambda>(k, r). P r) ms)"
  then obtain r' where r': "(k, r') \<in> set ms" "P r'" by auto
  from assms(1,2) r'(1) have "r' = r" by (meson eq_key_imp_eq_value)
  with r'(2) assms(3) show False by simp
qed

text \<open>
  Claim C2. In an initialized pipeline \<open>run_all\<close> returns the mapping that has, in
  registry order, one entry for each registered module that supports the language and
  none for the others: the keys are exactly the names of the modules not skipped, each
  once, and a skipped module's name is absent (no error entry stands in for it).
\<close>

theorem run_all_entries:
  assumes "pipeline_inv w" and "initialized (pipe w)"
  shows "\<exists>results. fst (run_all w text kw) = Inr results \<and>
           results = map (\<lambda>(k, r). (k, entry_of (outcome (heap w r) text kw)))
                       (filter (\<lambda>(k, r). can_process (heap w r) (get_language kw)) (modules (pipe w))) \<and>
           distinct (map fst results) \<and>
           (\<forall>(k, r) \<in> set (modules (pipe w)).
              if can_process (heap w r) (get_language kw)
              then map_of results k = Some (entry_of (outcome (heap w r) text kw))
              else map_of results k = None)"
proof -
  let ?lang = "get_language kw"
  let ?f = "\<lambda>(k, r). (k, entry_of (outcome (heap w r) text kw))"
  let ?results = "map ?f (capable w ?lang)"
  have keys: "map fst ?results = map fst (capable w ?lang)" by (simp add: case_prod_beta comp_def)
  have dm: "distinct (map fst (modules (pipe w)))" using assms(1) by (simp add: pipeline_inv_def)
  have dc: "distinct (map fst (capable w ?lang))" by (rule capable_keys_distinct [OF assms(1)])
  have 1: "fst (run_all w text kw) = Inr ?results" by (rule run_all_results [OF assms])
  have 2: "distinct (map fst ?results)" using dc by (simp only: keys)
  have 3: "map_of ?results k = Some (entry_of (outcome (heap w r) text kw))"
    if "(k, r) \<in> set (modules (pipe w))" "can_process (heap w r) ?lang" for k r
  proof -
    from that have "(k, r) \<in> set (capable w ?lang)" by (simp add: capable_def)
    from map_of_entries [OF dc this] show ?thesis .
  qed
  have 4: "map_of ?results k = None"
    if "(k, r) \<in> set (modules (pipe w))" "\<not> can_process (heap w r) ?lang" for k r
  proof -
    have "k \<notin> fst ` set (capable w ?lang)"
      unfolding capable_def
      using map_of_capable_skipped [of "modules (pipe w)" k r "\<lambda>r. can_process (heap w r) ?lang"] dm that
      by blast
    moreover have "fst ` set ?results = fst ` set (capable w ?lang)"
      using keys by (metis set_map)
    ultimately have "k \<notin> fst ` set ?results" by blast
    then show ?thesis by (metis map_of_eq_None_iff)
  qed
  from 1 2 3 4 show ?thesis unfolding capable_def by auto
qed

theorem run_all_entries_witness:
  "pipeline_inv ex_ready \<and> initialized (pipe ex_ready) \<and>
   (\<exists>results. fst (run_all ex_ready ''hello'' ex_kw) = Inr results \<and>
      results = [(''a'', PDict [(''echo'', PStr ''hello'')]), (''x'', PDict [(''error'', PStr ''boom'')])] \<and>
      map_of results ''b'' = None)"
proof -
  have e: "map (\<lambda>(k, r). (k, entry_of (outcome (heap ex_ready r) ''hello'' ex_kw)))
             (filter (\<lambda>(k, r). can_process (heap ex_ready r) (get_language ex_kw)) (modules (pipe ex_ready)))
           = [(''a'', PDict [(''echo'', PStr ''hello'')]), (''x'', PDict [(''error'', PStr ''boom'')])]"
    by (simp add: ex_ready_modules)
       (simp add: ex_defs can_process_def get_language_def outcome_def entry_of_def error_marker_def)
  from run_all_entries [OF ex_ready_inv ex_ready_initialized, of "''hello''" ex_kw]
  obtain results where r: "fst (run_all ex_ready ''hello'' ex_kw) = Inr results"
    "results = map (\<lambda>(k, r). (k, entry_of (outcome (heap ex_ready r) ''hello'' ex_kw)))
             (filter (\<lambda>(k, r). can_process (heap ex_ready r) (get_language ex_kw)) (modules (pipe ex_ready)))"
    by blast
  from r e have "results = [(''a'', PDict [(''echo'', PStr ''hello'')]), (''x'', PDict [(''error'', PStr ''boom'')])]"
    by simp
  with r(1) ex_ready_inv ex_ready_initialized show ?thesis by simp
qed

section \<open>Single-module execution\<close>

lemma registry_lookup:
  assumes "pipeline_inv w" "(k, r) \<in> set (modules (pipe w))"
  shows "map_of (modules (pipe w)) (name (heap w r)) = Some r"
proof -
  from assms have "name (heap w r) = k" by (auto simp: pipeline_inv_def list_all_iff)
  moreover from assms have "map_of (modules (pipe w)) k = Some r"
    by (simp add: pipeline_inv_def)
  ultimately show ?thesis by simp
qed

text \<open>
  Claim C5. \<open>run_module\<close> reads the \<open>language\<close> option, taking \<open>en-US\<close> when it is
  absent. In an initialized pipeline, called with the name of a registered module that
  does not support that language, it returns the skip sentinel (Python's \<open>None\<close>)
  as a value, not as an exception; the module's \<open>process\<close> is not run: no module
  object changes, and only a log event is added.
\<close>

theorem run_module_skip:
  assumes "pipeline_inv w" and "initialized (pipe w)"
    and "(k, r) \<in> set (modules (pipe w))"
    and "\<not> can_process (heap w r) (get_language kw)"
  shows "get_language (kw\<lparr>language := None\<rparr>) = ''en-US'' \<and>
         get_language (kw\<lparr>language := Some l\<rparr>) = l \<and>
         fst (run_module w (name (heap w r)) text kw) = Inr PNone \<and>
         heap (snd (run_module w (name (heap w r)) text kw)) = heap w \<and>
         pipe (snd (run_module w (name (heap w r)) text kw)) = pipe w"
  using assms(2,4) registry_lookup [OF assms(1,3)]
  by (simp add: run_module_def get_language_def)

theorem run_module_skip_witness:
  "pipeline_inv ex_ready \<and> initialized (pipe ex_ready) \<and>
   (''b'', 1) \<in> set (modules (pipe ex_ready)) \<and>
   \<not> can_process (heap ex_ready 1) (get_language ex_kw) \<and>
   get_language ex_kw = ''en-US'' \<and>
   fst (run_module ex_ready ''b'' ''hello'' ex_kw) = Inr PNone \<and>
   heap (snd (run_module ex_ready ''b'' ''hello'' ex_kw)) = heap ex_ready"
proof -
  have h3: "(''b'', 1) \<in> set (modules (pipe ex_ready))" by (simp add: ex_ready_modules)
  have h4: "\<not> can_process (heap ex_ready 1) (get_language ex_kw)"
    by (simp add: ex_defs can_process_def get_language_def)
  have n: "name (heap ex_ready 1) = ''b''" by (simp add: ex_defs)
  have l: "ex_kw\<lparr>language := None\<rparr> = ex_kw" by (simp add: ex_kw_def)
  note t = run_module_skip [OF ex_ready_inv ex_ready_initialized h3 h4, of "''fr-FR''" "''hello''"]
  from t [unfolded n l] show ?thesis using ex_ready_inv ex_ready_initialized h3 h4 by simp
qed

text \<open>
  Claim C6. In an initialized pipeline, when the \<open>process\<close> of a registered module that
  supports the language raises \<open>e\<close>, \<open>run_module\<close> called with that module's name raises
  the same \<open>e\<close>: the outcome is the exception, never a value, so in particular not the
  error marker that \<open>run_all\<close> would store.
\<close>

theorem run_module_propagates:
  assumes "pipeline_inv w" and "initialized (pipe w)"
    and "(k, r) \<in> set (modules (pipe w))"
    and "can_process (heap w r) (get_language kw)"
    and "outcome (heap w r) text kw = Inl e"
  shows "fst (run_module w (name (heap w r)) text kw) = Inl e \<and>
         (\<forall>v. fst (run_module w (name (heap w r)) text kw) \<noteq> Inr v) \<and>
         attrs (heap (snd (run_module w (name (heap w r)) text kw)) r) = attrs_after (heap w r) text kw"
  using assms(2,4,5) registry_lookup [OF assms(1,3)]
  by (auto simp: run_module_def Let_def outcome_def attrs_after_def split: prod.splits sum.splits)

theorem run_module_propagates_witness:
  "pipeline_inv ex_ready \<and> initialized (pipe ex_ready) \<and>
   (''x'', 2) \<in> set (modules (pipe ex_ready)) \<and>
   can_process (heap ex_ready 2) (get_language ex_kw) \<and>
   outcome (heap ex_ready 2) ''hello'' ex_kw = Inl (Exn (OtherError ''ProcessingError'') ''boom'' None) \<and>
   fst (run_module ex_ready ''x'' ''hello'' ex_kw) = Inl (Exn (OtherError ''ProcessingError'') ''boom'' None)"
proof -
  have h3: "(''x'', 2) \<in> set (modules (pipe ex_ready))" by (simp add: ex_ready_modules)
  have h4: "can_process (heap ex_ready 2) (get_language ex_kw)"
    by (simp add: ex_defs can_process_def get_language_def)
  have h5: "outcome (heap ex_ready 2) ''hello'' ex_kw = Inl (Exn (OtherError ''ProcessingError'') ''boom'' None)"
    by (simp add: ex_defs outcome_def)
  have n: "name (heap ex_ready 2) = ''x''" by (simp add: ex_defs)
  note t = run_module_propagates [OF ex_ready_inv ex_ready_initialized h3 h4 h5]
  from t [unfolded n] show ?thesis using ex_ready_inv ex_ready_initialized h3 h4 h5 by simp
qed

section \<open>The registry\<close>

lemma update_keys_distinct:
  "distinct (map fst d) \<Longrightarrow> distinct (map fst (AList.update k v d))"
  by (simp add: distinct_update)

lemma single_binding:
  assumes "distinct (map fst d)" "map_of d k = Some v"
  shows "filter (\<lambda>(k', v'). k' = k) d = [(k, v)]"
  using assms
proof (induction d)
  case Nil
  then show ?case by simp
next
  case (Cons p d)
  obtain k' v' where p: "p = (k', v')" by (cases p)
  show ?case
  proof (cases "k' = k")
    case True
    with Cons.prems p have "v' = v" and "k \<notin> fst ` set d" by auto
    then have "filter (\<lambda>(k', v'). k' = k) d = []" by (force simp: filter_empty_conv)
    with True p \<open>v' = v\<close> show ?thesis by simp
  next
    case False
    with Cons p show ?thesis by simp
  qed
qed

lemma update_set:
  "p \<in> set (AList.update k v d) \<Longrightarrow> p = (k, v) \<or> p \<in> set d"
  by (induction d) (auto split: if_splits)

lemma delete_filter: "AList.delete n d = filter (\<lambda>(k, r). k \<noteq> n) d"
  by (induction d) auto

lemma Pipeline_init_inv: "pipeline_inv (Pipeline_init h)"
  by (simp add: pipeline_inv_def Pipeline_init_def)

lemma register_heap [simp]: "heap (register w r) = heap w"
  by (simp add: register_def Let_def)

lemma register_modules:
  "modules (pipe (register w r)) = AList.update (name (heap w r)) r (modules (pipe w))"
  by (simp add: register_def Let_def)

lemma register_inv:
  assumes "pipeline_inv w"
  shows "pipeline_inv (register w r)"
proof -
  have "list_all (\<lambda>(k, r'). name (heap w r') = k) (AList.update (name (heap w r)) r (modules (pipe w)))"
    using assms by (auto simp: pipeline_inv_def list_all_iff dest!: update_set)
  with assms show ?thesis
    by (simp add: pipeline_inv_def register_modules distinct_update)
qed

lemma unregister_inv:
  assumes "pipeline_inv w"
  shows "pipeline_inv (snd (unregister w n))"
proof -
  have "distinct (map fst (AList.delete n (modules (pipe w))))"
    using assms by (simp add: pipeline_inv_def distinct_delete)
  moreover have "list_all (\<lambda>(k, r). name (heap w r) = k) (AList.delete n (modules (pipe w)))"
    using assms by (auto simp: pipeline_inv_def list_all_iff delete_filter)
  ultimately show ?thesis using assms by (simp add: unregister_def pipeline_inv_def)
qed

lemma set_attrs_name [simp]: "name (heap (set_attrs r a evs w) r') = name (heap w r')"
  by simp

lemma run_loop_name: "name (heap (snd (run_loop ms text kw lang res w)) r) = name (heap w r)"
  by (induction ms arbitrary: res w) (auto simp: Let_def split: prod.splits sum.splits)

lemma initialize_loop_name: "name (heap (snd (initialize_loop ms w)) r) = name (heap w r)"
  by (induction ms arbitrary: w) (auto simp: Let_def split: prod.splits option.splits)

lemma run_all_inv:
  assumes "pipeline_inv w"
  shows "pipeline_inv (snd (run_all w text kw))"
proof -
  have "name (heap (snd (run_all w text kw)) r) = name (heap w r)" for r
    using run_loop_name [of "modules (pipe w)" "text" kw "get_language kw" "[]" w r]
    by (auto simp: run_all_def split: prod.splits)
  moreover have "pipe (snd (run_all w text kw)) = pipe w"
    using run_loop_pipe [of "modules (pipe w)" "text" kw "get_language kw" "[]" w]
    by (auto simp: run_all_def split: prod.splits)
  ultimately show ?thesis using assms by (simp add: pipeline_inv_def)
qed

lemma run_module_inv:
  assumes "pipeline_inv w"
  shows "pipeline_inv (snd (run_module w n text kw))"
proof -
  have "name (heap (snd (run_module w n text kw)) r) = name (heap w r)" for r
    by (auto simp: run_module_def Let_def split: option.splits prod.splits sum.splits)
  moreover have "pipe (snd (run_module w n text kw)) = pipe w"
    by (auto simp: run_module_def Let_def split: option.splits prod.splits sum.splits)
  ultimately show ?thesis using assms by (simp add: pipeline_inv_def)
qed

lemma initialize_all_modules [simp]:
  "modules (pipe (snd (initialize_all w cfg))) = modules (pipe w)"
proof -
  let ?w0 = "w\<lparr>pipe := (pipe w)\<lparr>config := (case cfg of None \<Rightarrow> [] | Some d \<Rightarrow> if d = [] then [] else d)\<rparr>\<rparr>"
  have "pipe (snd (initialize_loop (modules (pipe ?w0)) ?w0)) = pipe ?w0"
    by (rule initialize_loop_pipe)
  then show ?thesis
    by (auto simp: initialize_all_def Let_def split: prod.splits option.splits)
qed

lemma initialize_all_name [simp]:
  "name (heap (snd (initialize_all w cfg)) r) = name (heap w r)"
proof -
  let ?w0 = "w\<lparr>pipe := (pipe w)\<lparr>config := (case cfg of None \<Rightarrow> [] | Some d \<Rightarrow> if d = [] then [] else d)\<rparr>\<rparr>"
  have "name (heap (snd (initialize_loop (modules (pipe ?w0)) ?w0)) r) = name (heap ?w0 r)"
    by (rule initialize_loop_name)
  then show ?thesis
    by (auto simp: initialize_all_def Let_def split: prod.splits option.splits)
qed

lemma initialize_all_inv:
  assumes "pipeline_inv w"
  shows "pipeline_inv (snd (initialize_all w cfg))"
  using assms by (simp add: pipeline_inv_def)

text \<open>
  Claim C8. Registering a module and then another module of the same name leaves the
  name bound to the second instance and to nothing else; the second call logs the
  overwrite warning (and the usual info event) and fails in no way: \<open>register\<close> has no
  exceptional outcome. Each registration keeps the invariant that a name has at most
  one binding.
\<close>

theorem register_overwrite:
  assumes "pipeline_inv w" and "name (heap w r2) = name (heap w r1)"
  shows "map_of (modules (pipe (register (register w r1) r2))) (name (heap w r2)) = Some r2 \<and>
         filter (\<lambda>(k, r). k = name (heap w r2)) (modules (pipe (register (register w r1) r2)))
           = [(name (heap w r2), r2)] \<and>
         log (register (register w r1) r2) =
           log (register w r1) @
             [Log WARNING (''Module '' @ quoted (name (heap w r2)) @ '' is already registered. Overwriting.''),
              Log INFO (''Registered module: '' @ name (heap w r2))] \<and>
         map fst (modules (pipe (register (register w r1) r2))) = map fst (modules (pipe (register w r1))) \<and>
         pipeline_inv (register w r1) \<and> pipeline_inv (register (register w r1) r2)"
proof -
  let ?n = "name (heap w r2)"
  let ?w1 = "register w r1"
  let ?w2 = "register ?w1 r2"
  have i1: "pipeline_inv ?w1" by (rule register_inv [OF assms(1)])
  have i2: "pipeline_inv ?w2" by (rule register_inv [OF i1])
  have present: "has_key ?n (modules (pipe ?w1))"
    using assms(2) by (simp add: has_key_def register_modules dom_update)
  have m: "map_of (modules (pipe ?w2)) ?n = Some r2"
    by (simp add: register_modules update_conv')
  have d: "distinct (map fst (modules (pipe ?w2)))" using i2 by (simp add: pipeline_inv_def)
  have f: "filter (\<lambda>(k, r). k = ?n) (modules (pipe ?w2)) = [(?n, r2)]"
    by (rule single_binding [OF d m])
  have l: "log ?w2 = log ?w1 @
             [Log WARNING (''Module '' @ quoted ?n @ '' is already registered. Overwriting.''),
              Log INFO (''Registered module: '' @ ?n)]"
    using present by (simp add: register_def [of ?w1 r2] Let_def)
  have k: "map fst (modules (pipe ?w2)) = map fst (modules (pipe ?w1))"
    using present by (simp add: register_modules [of ?w1 r2] has_key_def update_keys)
  from m f l k i1 i2 show ?thesis by simp
qed

theorem register_overwrite_witness:
  "pipeline_inv ex_registered \<and> name (heap ex_registered 3) = name (heap ex_registered 0) \<and>
   modules (pipe (register (register ex_registered 0) 3)) = [(''a'', 3), (''b'', 1), (''x'', 2)] \<and>
   filter (\<lambda>(k, r). k = ''a'') (modules (pipe (register (register ex_registered 0) 3))) = [(''a'', 3)] \<and>
   Log WARNING (''Module '' @ quoted ''a'' @ '' is already registered. Overwriting.'')
     \<in> set (log (register (register ex_registered 0) 3))"
proof -
  have h1: "pipeline_inv ex_registered" by (simp add: ex_defs pipeline_inv_def)
  have h2: "name (heap ex_registered 3) = name (heap ex_registered 0)" by (simp add: ex_defs)
  have n: "name (heap ex_registered 3) = ''a''" by (simp add: ex_defs)
  have ms: "modules (pipe (register (register ex_registered 0) 3)) = [(''a'', 3), (''b'', 1), (''x'', 2)]"
    by (simp add: register_modules ex_registered_modules) (simp add: ex_defs)
  note t = register_overwrite [OF h1 h2]
  from t [unfolded n] h1 h2 ms show ?thesis by simp
qed

text \<open>
  Claim C9. \<open>unregister\<close> has no exceptional outcome. For a registered name it returns
  true and removes that binding, keeping every other binding and their order; for a
  name that is not registered it returns false and leaves the pipeline and every
  module object as they were.
\<close>

theorem unregister_spec:
  "(if has_key n (modules (pipe w))
    then fst (unregister w n) = True \<and>
         \<not> has_key n (modules (pipe (snd (unregister w n)))) \<and>
         modules (pipe (snd (unregister w n))) = filter (\<lambda>(k, r). k \<noteq> n) (modules (pipe w))
    else fst (unregister w n) = False \<and>
         pipe (snd (unregister w n)) = pipe w) \<and>
   heap (snd (unregister w n)) = heap w \<and>
   config (pipe (snd (unregister w n))) = config (pipe w) \<and>
   initialized (pipe (snd (unregister w n))) = initialized (pipe w)"
  by (auto simp: unregister_def has_key_def delete_filter)

theorem unregister_spec_witness:
  "has_key ''b'' (modules (pipe ex_ready)) \<and>
   fst (unregister ex_ready ''b'') = True \<and>
   modules (pipe (snd (unregister ex_ready ''b''))) = [(''a'', 0), (''x'', 2)] \<and>
   \<not> has_key ''zz'' (modules (pipe ex_ready)) \<and>
   fst (unregister ex_ready ''zz'') = False \<and>
   pipe (snd (unregister ex_ready ''zz'')) = pipe ex_ready"
proof -
  have p: "has_key ''b'' (modules (pipe ex_ready))" by (simp add: has_key_def ex_ready_modules)
  have q: "\<not> has_key ''zz'' (modules (pipe ex_ready))" by (simp add: has_key_def ex_ready_modules)
  from unregister_spec [of "''b''" ex_ready] unregister_spec [of "''zz''" ex_ready] p q
  show ?thesis by (simp add: ex_ready_modules)
qed

section \<open>Start-up\<close>

lemma initialize_loop_fail:
  assumes "distinct (map snd (pre @ (k, r) # post))"
    and "\<forall>(k', r') \<in> set (pre @ [(k, r)]). heap w r' = h r'"
    and "config (pipe w) = c"
    and "\<forall>(k', r') \<in> set pre. init_outcome (h r') (config_for c k') = None"
    and "init_outcome (h r) (config_for c k) = Some e"
  shows "fst (initialize_loop (pre @ (k, r) # post) w) = Some (PipelineInitializationError k e) \<and>
         (\<forall>(k', r') \<in> set (pre @ [(k, r)]).
            heap (snd (initialize_loop (pre @ (k, r) # post) w)) r'
              = (h r')\<lparr>attrs := init_attrs (h r') (config_for c k')\<rparr>) \<and>
         (\<forall>r'. r' \<notin> snd ` set (pre @ [(k, r)]) \<longrightarrow>
            heap (snd (initialize_loop (pre @ (k, r) # post) w)) r' = heap w r')"
  using assms
proof (induction pre arbitrary: w)
  case Nil
  obtain a evs where i: "initialize (h r) (Some (config_for c k)) (attrs (h r)) = (Some e, a, evs)"
    using Nil.prems(5) by (cases "initialize (h r) (Some (config_for c k)) (attrs (h r))") (auto simp: init_outcome_def)
  from Nil.prems have hr: "heap w r = h r" by simp
  from i hr Nil.prems(3) show ?case by (simp add: init_attrs_def)
next
  case (Cons p pre)
  obtain n q where p: "p = (n, q)" by (cases p)
  from Cons.prems(2) p have hq: "heap w q = h q" by simp
  from Cons.prems(4) p have "init_outcome (h q) (config_for c n) = None" by simp
  then obtain a evs where i: "initialize (h q) (Some (config_for c n)) (attrs (h q)) = (None, a, evs)"
    by (cases "initialize (h q) (Some (config_for c n)) (attrs (h q))") (auto simp: init_outcome_def)
  let ?w1 = "emit INFO (''Initialized module: '' @ n) (set_attrs q a evs w)"
  from Cons.prems(1) p have nq: "q \<notin> snd ` set (pre @ [(k, r)])" and d: "distinct (map snd (pre @ (k, r) # post))"
    by auto
  have h1: "\<forall>(k', r') \<in> set (pre @ [(k, r)]). heap ?w1 r' = h r'"
    using Cons.prems(2) nq by (auto simp: rev_image_eqI)
  have c1: "config (pipe ?w1) = c" using Cons.prems(3) by simp
  have o1: "\<forall>(k', r') \<in> set pre. init_outcome (h r') (config_for c k') = None"
    using Cons.prems(4) by simp
  note IH = Cons.IH [OF d h1 c1 o1 Cons.prems(5)]
  have step: "initialize_loop ((p # pre) @ (k, r) # post) w = initialize_loop (pre @ (k, r) # post) ?w1"
    using p i hq Cons.prems(3) by simp
  have q_after: "heap (snd (initialize_loop (pre @ (k, r) # post) ?w1)) q = (h q)\<lparr>attrs := init_attrs (h q) (config_for c n)\<rparr>"
    using IH nq i hq by (simp add: init_attrs_def)
  show ?case
    unfolding step using IH q_after p by auto
qed

lemma initialize_all_unfold:
  "initialize_all w cfg =
     (case initialize_loop (modules (pipe w)) (w\<lparr>pipe := (pipe w)\<lparr>config := captured_config cfg\<rparr>\<rparr>) of
        (Some e, w1) \<Rightarrow> (Some e, w1)
      | (None, w1) \<Rightarrow>
          (None, emit INFO ''Pipeline initialization complete'' (w1\<lparr>pipe := (pipe w1)\<lparr>initialized := True\<rparr>\<rparr>)))"
  by (simp add: initialize_all_def captured_config_def Let_def split: option.splits)

text \<open>
  Claim C3, as the code has it. When the registry is \<open>pre\<close>, then the module \<open>k\<close>, then
  \<open>post\<close>, the \<open>initialize\<close> of every module of \<open>pre\<close> succeeds and that of \<open>k\<close> raises
  \<open>e\<close>, then \<open>initialize_all\<close> raises the pipeline initialization error that names \<open>k\<close>
  and has \<open>e\<close> as its cause. The \<open>initialized\<close> flag keeps the value it had before the
  call (false in a pipeline that was never initialized). There is no rollback: the
  modules of \<open>pre\<close> keep the attributes their \<open>initialize\<close> set, \<open>k\<close> keeps what its failed
  \<open>initialize\<close> left, and every other module object, the modules of \<open>post\<close> among them,
  is untouched, so no later module was initialized. The configuration is captured
  and the registry is unchanged.
\<close>

theorem initialize_all_fail_fast:
  assumes "pipeline_inv w"
    and "modules (pipe w) = pre @ (k, r) # post"
    and "\<forall>(k', r') \<in> set pre. init_outcome (heap w r') (config_for (captured_config cfg) k') = None"
    and "init_outcome (heap w r) (config_for (captured_config cfg) k) = Some e"
  shows "fst (initialize_all w cfg) = Some (PipelineInitializationError k e) \<and>
         initialized (pipe (snd (initialize_all w cfg))) = initialized (pipe w) \<and>
         (\<forall>(k', r') \<in> set (pre @ [(k, r)]).
            attrs (heap (snd (initialize_all w cfg)) r')
              = init_attrs (heap w r') (config_for (captured_config cfg) k')) \<and>
         (\<forall>(k', r') \<in> set post. heap (snd (initialize_all w cfg)) r' = heap w r') \<and>
         modules (pipe (snd (initialize_all w cfg))) = modules (pipe w) \<and>
         config (pipe (snd (initialize_all w cfg))) = captured_config cfg"
proof -
  let ?c = "captured_config cfg"
  let ?w0 = "w\<lparr>pipe := (pipe w)\<lparr>config := ?c\<rparr>\<rparr>"
  let ?L = "initialize_loop (pre @ (k, r) # post) ?w0"
  have d: "distinct (map snd (pre @ (k, r) # post))"
    using inv_distinct_refs [OF assms(1)] by (simp only: assms(2))
  have L: "fst ?L = Some (PipelineInitializationError k e) \<and>
         (\<forall>(k', r') \<in> set (pre @ [(k, r)]).
            heap (snd ?L) r' = (heap w r')\<lparr>attrs := init_attrs (heap w r') (config_for ?c k')\<rparr>) \<and>
         (\<forall>r'. r' \<notin> snd ` set (pre @ [(k, r)]) \<longrightarrow> heap (snd ?L) r' = heap ?w0 r')"
    by (rule initialize_loop_fail [OF d _ _ assms(3,4)]) auto
  have P: "pipe (snd ?L) = pipe ?w0" by (rule initialize_loop_pipe)
  have A: "initialize_all w cfg = (Some (PipelineInitializationError k e), snd ?L)"
  proof -
    from L have "fst ?L = Some (PipelineInitializationError k e)" by blast
    then show ?thesis by (cases ?L) (simp add: initialize_all_unfold assms(2))
  qed
  have post: "heap (snd ?L) r' = heap w r'" if "(k', r') \<in> set post" for k' r'
  proof -
    from d that have "r' \<notin> snd ` set (pre @ [(k, r)])" by (auto simp: rev_image_eqI)
    with L show ?thesis by simp
  qed
  have pre: "attrs (heap (snd ?L) r') = init_attrs (heap w r') (config_for ?c k')"
    if "(k', r') \<in> set (pre @ [(k, r)])" for k' r'
    using L that by fastforce
  show ?thesis
    unfolding A using P post pre assms(2) by auto
qed

theorem initialize_all_fail_fast_witness:
  "pipeline_inv ex_failing \<and>
   modules (pipe ex_failing) = [(''a'', 0)] @ (''y'', 4) # [(''b'', 1)] \<and>
   init_outcome (heap ex_failing 0) (config_for (captured_config None) ''a'') = None \<and>
   init_outcome (heap ex_failing 4) (config_for (captured_config None) ''y'')
     = Some (Exn ValueError ''missing credential'' None) \<and>
   fst (initialize_all ex_failing None)
     = Some (PipelineInitializationError ''y'' (Exn ValueError ''missing credential'' None)) \<and>
   \<not> initialized (pipe (snd (initialize_all ex_failing None))) \<and>
   attrs (heap (snd (initialize_all ex_failing None)) 0) = [(''ready'', PBool True)] \<and>
   attrs (heap (snd (initialize_all ex_failing None)) 4) = [(''ready'', PBool False)] \<and>
   heap (snd (initialize_all ex_failing None)) 1 = heap ex_failing 1"
proof -
  have ms: "modules (pipe ex_failing) = [(''a'', 0)] @ (''y'', 4) # [(''b'', 1)]"
    by (simp add: ex_failing_def ex_defs)
  have h1: "pipeline_inv ex_failing"
    by (simp add: pipeline_inv_def ms) (simp add: ex_failing_def ex_defs)
  have o0: "init_outcome (heap ex_failing 0) (config_for (captured_config None) ''a'') = None"
    by (simp add: ex_failing_def ex_defs init_outcome_def)
  have h3: "\<forall>(k', r') \<in> set [(''a'', 0)].
              init_outcome (heap ex_failing r') (config_for (captured_config None) k') = None"
    using o0 by simp
  have h4: "init_outcome (heap ex_failing 4) (config_for (captured_config None) ''y'')
              = Some (Exn ValueError ''missing credential'' None)"
    by (simp add: ex_failing_def ex_defs init_outcome_def)
  have f: "\<not> initialized (pipe ex_failing)" by (simp add: ex_failing_def ex_defs)
  have a0: "init_attrs (heap ex_failing 0) (config_for (captured_config None) ''a'') = [(''ready'', PBool True)]"
    by (simp add: ex_failing_def ex_defs init_attrs_def)
  have a4: "init_attrs (heap ex_failing 4) (config_for (captured_config None) ''y'') = [(''ready'', PBool False)]"
    by (simp add: ex_failing_def ex_defs init_attrs_def)
  note t = initialize_all_fail_fast [OF h1 ms h3 h4]
  from t f a0 a4 have
    "fst (initialize_all ex_failing None)
       = Some (PipelineInitializationError ''y'' (Exn ValueError ''missing credential'' None)) \<and>
     \<not> initialized (pipe (snd (initialize_all ex_failing None))) \<and>
     attrs (heap (snd (initialize_all ex_failing None)) 0) = [(''ready'', PBool True)] \<and>
     attrs (heap (snd (initialize_all ex_failing None)) 4) = [(''ready'', PBool False)] \<and>
     heap (snd (initialize_all ex_failing None)) 1 = heap ex_failing 1"
    by simp
  with h1 ms o0 h4 show ?thesis by blast
qed

text \<open>
  Claim C3 as stated fails where it says the flag is left false: module \<open>y\<close> is
  registered in a pipeline that is already initialized, its \<open>initialize\<close> raises during
  the second \<open>initialize_all\<close>, the call raises, and the flag is still true.
\<close>

theorem initialize_all_flag_counterexample:
  "init_outcome (heap ex_late 4) (config_for (captured_config None) ''y'')
     = Some (Exn ValueError ''missing credential'' None) \<and>
   fst (initialize_all ex_late None)
     = Some (PipelineInitializationError ''y'' (Exn ValueError ''missing credential'' None)) \<and>
   initialized (pipe (snd (initialize_all ex_late None)))"
  by (simp add: ex_late_def ex_defs init_outcome_def captured_config_def PipelineInitializationError_def)

section \<open>Module start-up failures\<close>
























end
